theory Spec2Isabelle
  imports Main
begin

section \<open>Python values\<close>

text \<open>
  A Python \<open>str\<close> is a sequence of Unicode code points and \<open>len\<close> counts code points;
  a Python \<open>bytes\<close> is a sequence of 8-bit values. HOL's \<open>char\<close> has exactly 256 values,
  so \<open>string\<close> models \<open>bytes\<close>, and \<open>str\<close> is a list of code points. The ASCII literals of
  the source are embedded with \<open>ascii\<close>.
\<close>

type_synonym py_str = "nat list"
type_synonym py_bytes = "string"

definition ascii :: "string \<Rightarrow> py_str" where
  "ascii s = map of_char s"

text \<open>
  \<open>s[i:j]\<close> on a sequence, with Python's treatment of negative and out-of-range bounds:
  a negative bound counts from the end, and both bounds are clamped to \<open>0..len(s)\<close>.
\<close>

definition py_slice :: "'a list \<Rightarrow> int \<Rightarrow> int \<Rightarrow> 'a list" where
  "py_slice s i j =
     (let n = int (length s);
          lo = (if i < 0 then max (i + n) 0 else min i n);
          hi = (if j < 0 then max (j + n) 0 else min j n)
      in take (nat (hi - lo)) (drop (nat lo) s))"

text \<open>\<open>str(n)\<close> for an integer: its decimal numeral, with a leading minus sign when negative.\<close>

fun digits :: "nat \<Rightarrow> py_str" where
  "digits n = (if n < 10 then [48 + n] else digits (n div 10) @ [48 + n mod 10])"

definition str_int :: "int \<Rightarrow> py_str" where
  "str_int i = (if i < 0 then 45 # digits (nat (- i)) else digits (nat i))"

text \<open>
  What a call can raise. \<open>Exception msg\<close> is an instance of class \<open>Exception\<close> (or of a
  subclass) whose \<open>str(e)\<close> is \<open>msg\<close>; \<open>BaseException msg\<close> is an instance of
  \<open>BaseException\<close> outside \<open>Exception\<close> (interpreter exit, keyboard interrupt, task
  cancellation), which a handler \<open>except Exception\<close> does not catch.
\<close>

datatype py_exception = Exception py_str | BaseException py_str

section \<open>Process-wide configuration\<close>

text \<open>
  The module's globals \<open>USER_AGENT_AUTONOMOUS\<close>, \<open>USER_AGENT_MANUAL\<close> and \<open>PROXY_URL\<close>
  (all \<open>None\<close> until \<open>configure_server\<close> runs), together with what lies outside the
  module: \<open>world\<close> is the network as \<open>fetch_url\<close> sees and changes it, and \<open>calls\<close> records
  every call the module makes to a collaborator, in order.
\<close>

datatype call =
    Fetch_url py_str "py_str option" bool "py_str option"
  | Robots_check py_str "py_str option"

record 'w state =
  USER_AGENT_AUTONOMOUS :: "py_str option"
  USER_AGENT_MANUAL :: "py_str option"
  PROXY_URL :: "py_str option"
  world :: 'w
  calls :: "call list"

definition DEFAULT_USER_AGENT_AUTONOMOUS :: py_str where
  "DEFAULT_USER_AGENT_AUTONOMOUS =
     ascii ''ModelContextProtocol/1.0 (Autonomous; +https://github.com/modelcontextprotocol/servers)''"

definition DEFAULT_USER_AGENT_MANUAL :: py_str where
  "DEFAULT_USER_AGENT_MANUAL =
     ascii ''ModelContextProtocol/1.0 (User-Specified; +https://github.com/modelcontextprotocol/servers)''"

text \<open>\<open>x or d\<close> for an optional string: \<open>None\<close> and the empty string are both falsy.\<close>

definition py_or :: "py_str option \<Rightarrow> py_str \<Rightarrow> py_str" where
  "py_or x d = (case x of None \<Rightarrow> d | Some v \<Rightarrow> if v = [] then d else v)"

definition configure_server :: "py_str option \<Rightarrow> py_str option \<Rightarrow> 'w state \<Rightarrow> 'w state" where
  "configure_server custom_user_agent proxy_url s =
     s\<lparr>USER_AGENT_AUTONOMOUS := Some (py_or custom_user_agent DEFAULT_USER_AGENT_AUTONOMOUS),
       USER_AGENT_MANUAL := Some (py_or custom_user_agent DEFAULT_USER_AGENT_MANUAL),
       PROXY_URL := proxy_url\<rparr>"

section \<open>The fetch tool\<close>

text \<open>
  \<open>fetch_url\<close> is imported from the module \<open>server\<close> and is a parameter here: given the
  URL, the user agent, \<open>force_raw\<close> and the proxy, it acts on the world and either raises
  or returns the pair \<open>(content, prefix)\<close>.
\<close>

type_synonym 'w fetch_url_fn =
  "py_str \<Rightarrow> py_str option \<Rightarrow> bool \<Rightarrow> py_str option \<Rightarrow> 'w
     \<Rightarrow> (py_exception + py_str \<times> py_str) \<times> 'w"

definition call_fetch_url ::
  "'w fetch_url_fn \<Rightarrow> py_str \<Rightarrow> py_str option \<Rightarrow> bool \<Rightarrow> py_str option \<Rightarrow> 'w state
     \<Rightarrow> (py_exception + py_str \<times> py_str) \<times> 'w state" where
  "call_fetch_url fetch_url url user_agent force_raw proxy_url s =
     (case fetch_url url user_agent force_raw proxy_url (world s) of
        (r, w') \<Rightarrow>
          (r, s\<lparr>world := w',
                calls := calls s @ [Fetch_url url user_agent force_raw proxy_url]\<rparr>))"

text \<open>The three error strings and the two f-strings of \<open>fetch\<close>.\<close>

definition url_required :: py_str where
  "url_required = ascii ''<error>URL is required</error>''"

definition failed_to_fetch :: "py_str \<Rightarrow> py_str \<Rightarrow> py_str" where
  "failed_to_fetch url cause =
     ascii ''<error>Failed to fetch '' @ url @ ascii '': '' @ cause @ ascii ''</error>''"

definition no_more_content :: py_str where
  "no_more_content = ascii ''<error>No more content available.</error>''"

definition truncation_notice :: "int \<Rightarrow> py_str" where
  "truncation_notice next_start =
     ascii ''\<newline>\<newline><error>Content truncated. Call the fetch tool with a start_index of ''
       @ str_int next_start @ ascii '' to get more content.</error>''"

definition contents_of :: "py_str \<Rightarrow> py_str \<Rightarrow> py_str \<Rightarrow> py_str" where
  "contents_of prefix url truncated_content =
     prefix @ ascii ''Contents of '' @ url @ ascii '':\<newline>'' @ truncated_content"

text \<open>The local variables of \<open>fetch\<close> after the fetch step, as functions of what they read.\<close>

definition original_length :: "py_str \<Rightarrow> int" where
  "original_length content = int (length content)"

definition truncated_content :: "py_str \<Rightarrow> int \<Rightarrow> int \<Rightarrow> py_str" where
  "truncated_content content start_index max_length =
     py_slice content start_index (start_index + max_length)"

definition actual_content_length :: "py_str \<Rightarrow> int \<Rightarrow> int \<Rightarrow> int" where
  "actual_content_length content start_index max_length =
     int (length (truncated_content content start_index max_length))"

definition remaining_content :: "py_str \<Rightarrow> int \<Rightarrow> int \<Rightarrow> int" where
  "remaining_content content start_index max_length =
     original_length content
       - (start_index + actual_content_length content start_index max_length)"

definition next_start :: "py_str \<Rightarrow> int \<Rightarrow> int \<Rightarrow> int" where
  "next_start content start_index max_length =
     start_index + actual_content_length content start_index max_length"

text \<open>
  The tool itself. The result is \<open>Inr\<close> the returned string, or \<open>Inl\<close> an exception that
  leaves the function.
\<close>

definition fetch ::
  "'w fetch_url_fn \<Rightarrow> py_str \<Rightarrow> int \<Rightarrow> int \<Rightarrow> bool \<Rightarrow> 'w state
     \<Rightarrow> (py_exception + py_str) \<times> 'w state" where
  "fetch fetch_url url max_length start_index raw s =
     (if url = [] then (Inr url_required, s)
      else
        (case call_fetch_url fetch_url url (USER_AGENT_AUTONOMOUS s) raw (PROXY_URL s) s of
           (Inl (Exception msg), s') \<Rightarrow> (Inr (failed_to_fetch url msg), s')
         | (Inl (BaseException msg), s') \<Rightarrow> (Inl (BaseException msg), s')
         | (Inr (content, prefix), s') \<Rightarrow>
             (if start_index \<ge> original_length content then (Inr no_more_content, s')
              else if truncated_content content start_index max_length = []
                then (Inr no_more_content, s')
              else if actual_content_length content start_index max_length = max_length
                      \<and> remaining_content content start_index max_length > 0
                then (Inr (contents_of prefix url
                             (truncated_content content start_index max_length
                                @ truncation_notice (next_start content start_index max_length))),
                      s')
              else (Inr (contents_of prefix url
                           (truncated_content content start_index max_length)), s'))))"

section \<open>The bearer-token middleware\<close>

text \<open>
  \<open>bytes.decode("utf-8")\<close>, strict: the bytes are read one at a time; \<open>need\<close> is the number
  of continuation bytes still owed to the current character, \<open>acc\<close> the bits read so far,
  and \<open>lo..hi\<close> the range allowed for the next continuation byte (narrower after
  \<open>E0\<close>, \<open>ED\<close>, \<open>F0\<close>, \<open>F4\<close>, which excludes overlong forms, surrogates and values above
  \<open>10FFFF\<close>). \<open>None\<close> stands for \<open>UnicodeDecodeError\<close>.
\<close>

fun utf8_run :: "nat \<Rightarrow> nat \<Rightarrow> nat \<Rightarrow> nat \<Rightarrow> nat list \<Rightarrow> py_str option" where
  "utf8_run need acc lo hi [] = (if need = 0 then Some [] else None)"
| "utf8_run need acc lo hi (b # bs) =
     (if need = 0 then
        (if b < 128 then map_option ((#) b) (utf8_run 0 0 128 192 bs)
         else if 194 \<le> b \<and> b < 224 then utf8_run 1 (b - 192) 128 192 bs
         else if 224 \<le> b \<and> b < 240 then
           utf8_run 2 (b - 224) (if b = 224 then 160 else 128) (if b = 237 then 160 else 192) bs
         else if 240 \<le> b \<and> b < 245 then
           utf8_run 3 (b - 240) (if b = 240 then 144 else 128) (if b = 244 then 144 else 192) bs
         else None)
      else if lo \<le> b \<and> b < hi then
        (if need = 1 then map_option ((#) (acc * 64 + (b - 128))) (utf8_run 0 0 128 192 bs)
         else utf8_run (need - 1) (acc * 64 + (b - 128)) 128 192 bs)
      else None)"

definition decode_utf8 :: "py_bytes \<Rightarrow> py_str option" where
  "decode_utf8 b = utf8_run 0 0 128 192 (map of_char b)"

text \<open>
  The ASGI interface as the middleware uses it. A scope has a \<open>type\<close> and may have
  \<open>headers\<close>, a list of pairs of byte strings (names in lower case). A connection holds
  the messages passed to \<open>send\<close> so far and a record of the scopes the wrapped application
  was invoked with. \<open>send\<close> appends a message; \<open>receive\<close> is never used by the
  middleware and is left out.
\<close>

datatype message =
    Http_response_start nat "(py_bytes \<times> py_bytes) list"
  | Http_response_body py_bytes

record scope =
  scope_type :: py_str
  headers :: "(py_bytes \<times> py_bytes) list option"

record connection =
  sent :: "message list"
  invoked :: "scope list"

text \<open>
  An ASGI callable returns \<open>None\<close> or raises. The wrapped application is a parameter: it
  may send messages and may raise an exception of its own (\<open>App_raised\<close>).
\<close>

datatype 'e raised = UnicodeDecodeError | App_raised 'e

type_synonym 'e application = "scope \<Rightarrow> message list \<Rightarrow> 'e option \<times> message list"

type_synonym 'e asgi = "scope \<Rightarrow> connection \<Rightarrow> 'e raised option \<times> connection"

definition invoke :: "'e application \<Rightarrow> 'e asgi" where
  "invoke app scope c =
     (case app scope (sent c) of
        (r, sent') \<Rightarrow> (map_option App_raised r, c\<lparr>sent := sent', invoked := invoked c @ [scope]\<rparr>))"

definition send :: "message \<Rightarrow> connection \<Rightarrow> connection" where
  "send m c = c\<lparr>sent := sent c @ [m]\<rparr>"

text \<open>The two messages of the 401 response.\<close>

definition unauthorized_start :: message where
  "unauthorized_start =
     Http_response_start 401
       [(''content-type'', ''application/json''), (''www-authenticate'', ''Bearer'')]"

definition unauthorized_body :: message where
  "unauthorized_body =
     Http_response_body
       (''{\"error\": \"Unauthorized\", '' @ ''\"message\": \"Invalid or missing Bearer token\"}'')"

text \<open>
  The closure \<open>auth_middleware\<close> of \<open>create_auth_middleware\<close>, with \<open>app\<close> and \<open>token\<close>
  as arguments. \<open>dict(pairs)\<close> keeps the last value of a repeated key, hence the \<open>rev\<close>.
\<close>

definition auth_middleware :: "'e asgi \<Rightarrow> py_str \<Rightarrow> 'e asgi" where
  "auth_middleware app token scope c =
     (if scope_type scope = ascii ''http'' then
        (let headers = map_of (rev (case headers scope of None \<Rightarrow> [] | Some hs \<Rightarrow> hs))
         in case decode_utf8 (case headers ''authorization'' of None \<Rightarrow> [] | Some v \<Rightarrow> v) of
              None \<Rightarrow> (Some UnicodeDecodeError, c)
            | Some auth_header \<Rightarrow>
                (let expected_auth = ascii ''Bearer '' @ token
                 in if auth_header \<noteq> expected_auth
                    then (None, send unauthorized_body (send unauthorized_start c))
                    else app scope c))
      else app scope c)"

definition create_auth_middleware :: "'e asgi \<Rightarrow> py_str \<Rightarrow> 'e asgi" where
  "create_auth_middleware app token = auth_middleware app token"

text \<open>
  \<open>get_app\<close>, with \<open>mcp.streamable_http_app\<close> as a parameter. \<open>None\<close> and the empty
  string are both falsy for \<open>if auth_token\<close>.
\<close>

definition get_app :: "'e application \<Rightarrow> py_str option \<Rightarrow> 'e asgi" where
  "get_app streamable_http_app auth_token =
     (let app = invoke streamable_http_app
      in case auth_token of
           None \<Rightarrow> app
         | Some token \<Rightarrow> if token = [] then app else create_auth_middleware app token)"

text \<open>The value of the Authorization header as the middleware reads it, before decoding.\<close>

definition authorization :: "scope \<Rightarrow> py_bytes" where
  "authorization scope =
     (case map_of (rev (case headers scope of None \<Rightarrow> [] | Some hs \<Rightarrow> hs)) ''authorization'' of
        None \<Rightarrow> [] | Some v \<Rightarrow> v)"

section \<open>Notions used in the statements\<close>

text \<open>The three globals of a state, as one value.\<close>

definition configuration :: "'w state \<Rightarrow> py_str option \<times> py_str option \<times> py_str option" where
  "configuration s = (USER_AGENT_AUTONOMOUS s, USER_AGENT_MANUAL s, PROXY_URL s)"

text \<open>
  The robots gate, in the words of the specification: a call record is gated when every
  call of the URL fetcher under the autonomous user agent comes after a robots-policy
  evaluation of the same URL. \<open>checked\<close> holds the URLs evaluated so far.
\<close>

fun robots_gated :: "py_str option \<Rightarrow> py_str list \<Rightarrow> call list \<Rightarrow> bool" where
  "robots_gated autonomous checked [] = True"
| "robots_gated autonomous checked (Robots_check url user_agent # cs) =
     robots_gated autonomous (url # checked) cs"
| "robots_gated autonomous checked (Fetch_url url user_agent force_raw proxy_url # cs) =
     ((user_agent = autonomous \<longrightarrow> url \<in> set checked) \<and> robots_gated autonomous checked cs)"

text \<open>
  A caller that follows the continuation instructions over a fixed content: it asks for
  \<open>start_index\<close>; when the tool answers with the end-of-content error (either of its two
  tests) the caller stops; otherwise it keeps the slice it is given and, when the tool
  names a next index, asks again there. The result is the list of slices received. The
  tests are those of \<open>fetch\<close>, in its order, and nothing is assumed of \<open>start_index\<close> or
  \<open>max_length\<close>.
\<close>

function continuation_calls :: "py_str \<Rightarrow> int \<Rightarrow> int \<Rightarrow> py_str list" where
  "continuation_calls content max_length start_index =
     (if start_index \<ge> original_length content then []
      else if truncated_content content start_index max_length = [] then []
      else truncated_content content start_index max_length
             # (if actual_content_length content start_index max_length = max_length
                    \<and> remaining_content content start_index max_length > 0
                then continuation_calls content max_length
                       (next_start content start_index max_length)
                else []))"
  by pat_completeness auto
termination
proof (relation "measure (\<lambda>(content, max_length, start_index).
                   nat (original_length content - start_index))", goal_cases)
  case 1
  show ?case by simp
next
  case (2 content max_length start_index)
  then have "0 < int (length (truncated_content content start_index max_length))"
    by simp
  with 2 show ?case
    by (simp add: next_start_def actual_content_length_def)
qed

section \<open>Sample collaborators and a sample start-up state\<close>

text \<open>
  Two fetch steps to run the tool on: one that returns a fixed page and one that raises a
  fixed exception. Their world counts the requests made. \<open>startup\<close> is the state after
  \<open>configure_server(None, None)\<close>.
\<close>

definition fetch_url_returning :: "py_str \<Rightarrow> py_str \<Rightarrow> nat fetch_url_fn" where
  "fetch_url_returning content prefix url user_agent force_raw proxy_url w =
     (Inr (content, prefix), Suc w)"

definition fetch_url_raising :: "py_exception \<Rightarrow> nat fetch_url_fn" where
  "fetch_url_raising e url user_agent force_raw proxy_url w = (Inl e, Suc w)"

definition startup :: "nat state" where
  "startup = configure_server None None
     \<lparr>USER_AGENT_AUTONOMOUS = None, USER_AGENT_MANUAL = None, PROXY_URL = None,
      world = 0, calls = []\<rparr>"

declare digits.simps [simp del]

declare continuation_calls.simps [simp del]

section \<open>Slices and the continuation condition\<close>

lemma py_slice_window:
  "0 \<le> i \<Longrightarrow> 0 \<le> m \<Longrightarrow> py_slice s i (i + m) = take (nat m) (drop (nat i) s)"
  by (auto simp: py_slice_def Let_def min_def max_def)

lemma truncated_content_window:
  "0 \<le> start_index \<Longrightarrow> 0 \<le> max_length \<Longrightarrow>
     truncated_content content start_index max_length
       = take (nat max_length) (drop (nat start_index) content)"
  by (simp add: truncated_content_def py_slice_window)

lemma actual_content_length_window:
  "0 \<le> start_index \<Longrightarrow> 0 \<le> max_length \<Longrightarrow>
     actual_content_length content start_index max_length
       = min max_length (max 0 (int (length content) - start_index))"
  by (auto simp: actual_content_length_def truncated_content_window min_def max_def)

lemma truncated_content_nonempty:
  "0 \<le> start_index \<Longrightarrow> start_index < int (length content) \<Longrightarrow> 0 < max_length \<Longrightarrow>
     truncated_content content start_index max_length \<noteq> []"
  by (auto simp: truncated_content_window)

lemma continuation_condition:
  "0 \<le> start_index \<Longrightarrow> 0 < max_length \<Longrightarrow>
     (actual_content_length content start_index max_length = max_length
        \<and> remaining_content content start_index max_length > 0)
     \<longleftrightarrow> start_index + max_length < int (length content)"
  by (auto simp: remaining_content_def original_length_def actual_content_length_window
        min_def max_def)

lemma fetch_returned:
  assumes "url \<noteq> []"
    and "fst (fetch_url url (USER_AGENT_AUTONOMOUS s) raw (PROXY_URL s) (world s))
           = Inr (content, prefix)"
  shows "fst (fetch fetch_url url max_length start_index raw s) =
     (if start_index \<ge> original_length content then Inr no_more_content
      else if truncated_content content start_index max_length = [] then Inr no_more_content
      else if actual_content_length content start_index max_length = max_length
                \<and> remaining_content content start_index max_length > 0
        then Inr (contents_of prefix url
                    (truncated_content content start_index max_length
                       @ truncation_notice (next_start content start_index max_length)))
      else Inr (contents_of prefix url (truncated_content content start_index max_length)))"
  using assms
  by (cases "fetch_url url (USER_AGENT_AUTONOMOUS s) raw (PROXY_URL s) (world s)")
     (simp add: fetch_def call_fetch_url_def)

lemma contents_of_inject [simp]:
  "contents_of prefix url a = contents_of prefix url b \<longleftrightarrow> a = b"
  by (simp add: contents_of_def)

lemma truncation_notice_nonempty [simp]: "truncation_notice n \<noteq> []"
  by (simp add: truncation_notice_def ascii_def)

lemma no_more_content_not_contents [simp]:
  "no_more_content \<noteq> contents_of prefix url body"
proof
  assume "no_more_content = contents_of prefix url body"
  then have "set no_more_content = set (contents_of prefix url body)" by simp
  moreover have "67 \<in> set (contents_of prefix url body)"
    by (simp add: contents_of_def ascii_def)
  moreover have "67 \<notin> set no_more_content"
    by (simp add: no_more_content_def ascii_def)
  ultimately show False by simp
qed

lemma contents_not_no_more_content [simp]:
  "contents_of prefix url body \<noteq> no_more_content"
  using no_more_content_not_contents [of prefix url body] by (rule not_sym)

lemma fetch_configuration:
  "configuration (snd (fetch fetch_url url max_length start_index raw s)) = configuration s"
  by (auto simp: fetch_def call_fetch_url_def configuration_def
        split: prod.splits sum.splits py_exception.splits)

lemma fetch_calls:
  "calls (snd (fetch fetch_url url max_length start_index raw s))
     = (if url = [] then calls s
        else calls s @ [Fetch_url url (USER_AGENT_AUTONOMOUS s) raw (PROXY_URL s)])"
  by (auto simp: fetch_def call_fetch_url_def
        split: prod.splits sum.splits py_exception.splits)

lemma fetch_output_depends:
  assumes "USER_AGENT_AUTONOMOUS t = USER_AGENT_AUTONOMOUS s" and "PROXY_URL t = PROXY_URL s"
    and "fst (fetch_url url (USER_AGENT_AUTONOMOUS s) raw (PROXY_URL s) (world t))
           = fst (fetch_url url (USER_AGENT_AUTONOMOUS s) raw (PROXY_URL s) (world s))"
  shows "fst (fetch fetch_url url max_length start_index raw t)
           = fst (fetch fetch_url url max_length start_index raw s)"
  using assms
  by (cases "fetch_url url (USER_AGENT_AUTONOMOUS s) raw (PROXY_URL s) (world t)";
      cases "fetch_url url (USER_AGENT_AUTONOMOUS s) raw (PROXY_URL s) (world s)")
     (auto simp: fetch_def call_fetch_url_def split: sum.splits py_exception.splits)

lemma fetch_output_cases:
  assumes "url \<noteq> []"
    and "fst (fetch_url url (USER_AGENT_AUTONOMOUS s) raw (PROXY_URL s) (world s))
           = Inr (content, prefix)"
    and "0 \<le> start_index" and "0 < max_length"
  shows "fst (fetch fetch_url url max_length start_index raw s) =
     (if int (length content) \<le> start_index then Inr no_more_content
      else if start_index + max_length < int (length content)
        then Inr (contents_of prefix url
                    (truncated_content content start_index max_length
                       @ truncation_notice (start_index + max_length)))
      else Inr (contents_of prefix url (truncated_content content start_index max_length)))"
proof -
  have nonempty: "truncated_content content start_index max_length \<noteq> []"
    if "start_index < int (length content)"
    using assms(3) that assms(4) by (rule truncated_content_nonempty)
  have nxt: "next_start content start_index max_length = start_index + max_length"
    if "start_index + max_length < int (length content)"
    using that assms(3,4) by (simp add: next_start_def actual_content_length_window)
  show ?thesis
    using nonempty nxt continuation_condition [OF assms(3,4), of content]
      fetch_returned [of url fetch_url s raw content prefix max_length start_index,
        OF assms(1,2)]
    by (simp add: original_length_def)
qed

lemma continuation_calls_follows_fetch:
  assumes "url \<noteq> []"
    and "fst (fetch_url url (USER_AGENT_AUTONOMOUS s) raw (PROXY_URL s) (world s))
           = Inr (content, prefix)"
  shows "(fst (fetch fetch_url url max_length start_index raw s) = Inr no_more_content
            \<and> continuation_calls content max_length start_index = [])
         \<or> (fst (fetch fetch_url url max_length start_index raw s)
               = Inr (contents_of prefix url (truncated_content content start_index max_length))
            \<and> continuation_calls content max_length start_index
                = [truncated_content content start_index max_length])
         \<or> (fst (fetch fetch_url url max_length start_index raw s)
               = Inr (contents_of prefix url
                        (truncated_content content start_index max_length
                           @ truncation_notice (next_start content start_index max_length)))
            \<and> continuation_calls content max_length start_index
                = truncated_content content start_index max_length
                    # continuation_calls content max_length
                        (next_start content start_index max_length))"
  using fetch_returned [of url fetch_url s raw content prefix max_length start_index,
          OF assms]
  by (subst (1 2 3) continuation_calls.simps) simp

lemma continuation_calls_step:
  assumes "0 \<le> start_index" and "0 < max_length"
  shows "continuation_calls content max_length start_index =
     (if int (length content) \<le> start_index then []
      else take (nat max_length) (drop (nat start_index) content)
             # (if start_index + max_length < int (length content)
                then continuation_calls content max_length (start_index + max_length)
                else []))"
proof -
  have nxt: "next_start content start_index max_length = start_index + max_length"
    if "start_index + max_length < int (length content)"
    using that assms by (simp add: next_start_def actual_content_length_window)
  have nonempty: "truncated_content content start_index max_length \<noteq> []"
    if "start_index < int (length content)"
    using assms(1) that assms(2) by (rule truncated_content_nonempty)
  show ?thesis
    using assms nxt nonempty continuation_condition [OF assms, of content]
    by (subst continuation_calls.simps)
       (simp add: original_length_def truncated_content_window)
qed

lemma continuation_calls_cover:
  "0 \<le> start_index \<Longrightarrow> 0 < max_length \<Longrightarrow>
     concat (continuation_calls content max_length start_index) = drop (nat start_index) content
     \<and> [] \<notin> set (continuation_calls content max_length start_index)
     \<and> length (continuation_calls content max_length start_index)
         \<le> length content - nat start_index"
proof (induction content max_length start_index rule: continuation_calls.induct)
  case (1 content max_length start_index)
  note step = continuation_calls_step [OF "1.prems", of content]
  show ?case
  proof (cases "int (length content) \<le> start_index")
    case True
    with "1.prems" show ?thesis by (simp add: step)
  next
    case inside: False
    show ?thesis
    proof (cases "start_index + max_length < int (length content)")
      case True
      have cond: "actual_content_length content start_index max_length = max_length
                    \<and> 0 < remaining_content content start_index max_length"
        using True continuation_condition [OF "1.prems", of content] by simp
      have nxt: "next_start content start_index max_length = start_index + max_length"
        using True "1.prems" by (simp add: next_start_def actual_content_length_window)
      have guard: "\<not> original_length content \<le> start_index"
        using inside by (simp add: original_length_def)
      have nonempty: "truncated_content content start_index max_length \<noteq> []"
        using "1.prems" inside by (simp add: truncated_content_nonempty)
      have IH: "concat (continuation_calls content max_length (start_index + max_length))
                  = drop (nat (start_index + max_length)) content
                \<and> [] \<notin> set (continuation_calls content max_length (start_index + max_length))
                \<and> length (continuation_calls content max_length (start_index + max_length))
                    \<le> length content - nat (start_index + max_length)"
        using "1.IH" [OF guard nonempty cond] "1.prems" by (simp add: nxt)
      have joined: "take (nat max_length) (drop (nat start_index) content)
                     @ drop (nat (start_index + max_length)) content
                   = drop (nat start_index) content"
      proof -
        have "nat (start_index + max_length) = nat max_length + nat start_index"
          using "1.prems" by (simp add: nat_add_distrib)
        then have "drop (nat (start_index + max_length)) content
                     = drop (nat max_length) (drop (nat start_index) content)"
          by simp
        then show ?thesis by (simp only: append_take_drop_id)
      qed
      from IH joined True inside "1.prems" show ?thesis
        by (auto simp: step)
    next
      case False
      with inside "1.prems" show ?thesis by (auto simp: step)
    qed
  qed
qed

section \<open>Decimal numerals are unambiguous\<close>

lemma digits_nonempty: "digits n \<noteq> []"
  by (subst digits.simps) simp

lemma digits_range: "d \<in> set (digits n) \<Longrightarrow> 48 \<le> d"
proof (induction n rule: digits.induct)
  case (1 n)
  then show ?case
    by (subst (asm) (2) digits.simps) (auto split: if_splits)
qed

lemma digits_value: "foldl (\<lambda>a d. 10 * a + (d - 48)) 0 (digits n) = n"
proof (induction n rule: digits.induct)
  case (1 n)
  show ?case
  proof (cases "n < 10")
    case True
    then show ?thesis by (subst digits.simps) simp
  next
    case False
    with "1" show ?thesis by (subst digits.simps) simp
  qed
qed

lemma digits_inject: "digits m = digits n \<Longrightarrow> m = n"
  by (metis digits_value)

lemma str_int_inject: "str_int i = str_int j \<Longrightarrow> i = j"
proof -
  assume eq: "str_int i = str_int j"
  have no_minus: "digits n \<noteq> 45 # ds" for n ds
  proof
    assume "digits n = 45 # ds"
    then have "45 \<in> set (digits n)" by simp
    then have "(48::nat) \<le> 45" by (rule digits_range)
    then show False by simp
  qed
  show "i = j"
  proof (cases "i < 0"; cases "j < 0")
    assume "i < 0" "j < 0"
    with eq have "digits (nat (- i)) = digits (nat (- j))" by (simp add: str_int_def)
    then have "nat (- i) = nat (- j)" by (rule digits_inject)
    with \<open>i < 0\<close> \<open>j < 0\<close> show ?thesis by simp
  next
    assume "i < 0" "\<not> j < 0"
    with eq have "digits (nat j) = 45 # digits (nat (- i))" by (simp add: str_int_def)
    with no_minus show ?thesis by blast
  next
    assume "\<not> i < 0" "j < 0"
    with eq have "digits (nat i) = 45 # digits (nat (- j))" by (simp add: str_int_def)
    with no_minus show ?thesis by blast
  next
    assume "\<not> i < 0" "\<not> j < 0"
    with eq have "digits (nat i) = digits (nat j)" by (simp add: str_int_def)
    then have "nat i = nat j" by (rule digits_inject)
    with \<open>\<not> i < 0\<close> \<open>\<not> j < 0\<close> show ?thesis by simp
  qed
qed

lemma truncation_notice_inject: "truncation_notice m = truncation_notice n \<Longrightarrow> m = n"
  by (rule str_int_inject) (simp add: truncation_notice_def)

section \<open>Properties of the fetch tool\<close>

text \<open>
  C7. An empty \<open>url\<close> gives \<open><error>URL is required</error>\<close> at once: whatever the
  fetch step is, the state is returned as it was, so the world is untouched and no call
  to \<open>fetch_url\<close> is recorded.
\<close>

theorem fetch_empty_url:
  "fetch fetch_url [] max_length start_index raw s = (Inr url_required, s)"
  by (simp add: fetch_def)

text \<open>
  C3. When the fetch step returned a non-empty \<open>content\<close> and
  \<open>start_index \<ge> len(content)\<close>, the tool returns the string
  \<open><error>No more content available.</error>\<close>, for every \<open>max_length\<close>; the result is
  a returned value (\<open>Inr\<close>), not a raised exception.
\<close>

theorem fetch_start_beyond_content:
  assumes "url \<noteq> []"
    and "fst (fetch_url url (USER_AGENT_AUTONOMOUS s) raw (PROXY_URL s) (world s))
           = Inr (content, prefix)"
    and "content \<noteq> []"
    and "start_index \<ge> int (length content)"
  shows "fst (fetch fetch_url url max_length start_index raw s) = Inr no_more_content"
  using assms(4)
    fetch_returned [of url fetch_url s raw content prefix max_length start_index, OF assms(1,2)]
  by (simp add: original_length_def)

theorem fetch_start_beyond_content_witness:
  "fst (fetch (fetch_url_returning (ascii ''abcdef'') []) (ascii ''http://a'') 4 6 False startup)
     = Inr no_more_content"
  using fetch_start_beyond_content
    [of "ascii ''http://a''" "fetch_url_returning (ascii ''abcdef'') []" startup False
        "ascii ''abcdef''" "[]" 6 4]
  by (simp add: ascii_def fetch_url_returning_def)

text \<open>
  C10. When the fetched content is the empty string, the tool returns
  \<open><error>No more content available.</error>\<close> for every \<open>start_index\<close> (and every
  \<open>max_length\<close>), and the result is never of the form \<open>{prefix}Contents of {url}:...\<close>.
\<close>

theorem fetch_empty_content:
  assumes "url \<noteq> []"
    and "fst (fetch_url url (USER_AGENT_AUTONOMOUS s) raw (PROXY_URL s) (world s))
           = Inr ([], prefix)"
  shows "fst (fetch fetch_url url max_length start_index raw s) = Inr no_more_content
         \<and> (\<forall>p body. fst (fetch fetch_url url max_length start_index raw s)
                \<noteq> Inr (contents_of p url body))"
proof -
  have "truncated_content [] start_index max_length = []"
    by (simp add: truncated_content_def py_slice_def)
  then have "fst (fetch fetch_url url max_length start_index raw s) = Inr no_more_content"
    using fetch_returned [of url fetch_url s raw "[]" prefix max_length start_index, OF assms]
    by simp
  then show ?thesis by simp
qed

theorem fetch_empty_content_witness:
  "fst (fetch (fetch_url_returning [] []) (ascii ''http://a'') 5000 0 False startup)
       = Inr no_more_content
   \<and> (\<forall>p body. fst (fetch (fetch_url_returning [] []) (ascii ''http://a'') 5000 0 False startup)
          \<noteq> Inr (contents_of p (ascii ''http://a'') body))"
  using fetch_empty_content
    [of "ascii ''http://a''" "fetch_url_returning [] []" startup False "[]" 5000 0]
  by (simp add: ascii_def fetch_url_returning_def)

text \<open>
  C5, as stated, fails: the handler is \<open>except Exception\<close>, so an exception of the fetch
  step that is not an instance of \<open>Exception\<close> (a task cancellation, say) leaves the
  function, and no \<open>Failed to fetch\<close> string is returned.
\<close>

theorem fetch_base_exception_propagates:
  "fst (fetch (fetch_url_raising (BaseException (ascii ''cancelled''))) (ascii ''http://a'')
          5000 0 False startup)
     = Inl (BaseException (ascii ''cancelled''))
   \<and> fst (fetch (fetch_url_raising (BaseException (ascii ''cancelled''))) (ascii ''http://a'')
            5000 0 False startup)
       \<noteq> Inr (failed_to_fetch (ascii ''http://a'') (ascii ''cancelled''))"
  by (simp add: fetch_def call_fetch_url_def fetch_url_raising_def ascii_def)

text \<open>
  C5, amended. When the fetch step raises an instance of \<open>Exception\<close> with message
  \<open>cause\<close>, the tool returns \<open><error>Failed to fetch {url}: {cause}</error>\<close> and the
  exception does not leave the function; an exception outside \<open>Exception\<close> leaves the
  function unchanged. In both cases the fetch step was called exactly once (no retry), as
  the call record and the world show.
\<close>

theorem fetch_failure_caught:
  assumes "url \<noteq> []"
    and "fetch_url url (USER_AGENT_AUTONOMOUS s) raw (PROXY_URL s) (world s) = (Inl e, w')"
  shows "fetch fetch_url url max_length start_index raw s
           = (case e of
                Exception cause \<Rightarrow> Inr (failed_to_fetch url cause)
              | BaseException msg \<Rightarrow> Inl e,
              s\<lparr>world := w',
                calls := calls s
                  @ [Fetch_url url (USER_AGENT_AUTONOMOUS s) raw (PROXY_URL s)]\<rparr>)"
  using assms by (cases e) (simp_all add: fetch_def call_fetch_url_def)

theorem fetch_failure_caught_witness:
  "fetch (fetch_url_raising (Exception (ascii ''timeout''))) (ascii ''http://a'') 5000 0 False
       startup
     = (Inr (ascii ''<error>Failed to fetch http://a: timeout</error>''),
        startup\<lparr>world := 1,
          calls := [Fetch_url (ascii ''http://a'') (Some DEFAULT_USER_AGENT_AUTONOMOUS)
                      False None]\<rparr>)"
  using fetch_failure_caught
    [of "ascii ''http://a''" "fetch_url_raising (Exception (ascii ''timeout''))" startup False
        "Exception (ascii ''timeout'')" 1 5000 0]
  by (simp add: ascii_def fetch_url_raising_def startup_def configure_server_def py_or_def
        failed_to_fetch_def)

text \<open>
  C2. For \<open>0 \<le> start_index < len(content)\<close> and \<open>max_length > 0\<close>, the tool returns
  \<open>{prefix}Contents of {url}:\<close>, a newline, and then the slice
  \<open>content[start_index : start_index + max_length]\<close>, that is, the \<open>max_length\<close>
  characters of \<open>content\<close> from position \<open>start_index\<close> on, or as many as there are; after
  the slice comes the continuation instruction when content remains beyond it, and nothing
  otherwise. The length of the slice is \<open>min(max_length, len(content) - start_index)\<close>.
\<close>

theorem fetch_slice:
  assumes "url \<noteq> []"
    and "fst (fetch_url url (USER_AGENT_AUTONOMOUS s) raw (PROXY_URL s) (world s))
           = Inr (content, prefix)"
    and "0 \<le> start_index" and "start_index < int (length content)" and "0 < max_length"
  shows "fst (fetch fetch_url url max_length start_index raw s)
           = Inr (prefix @ ascii ''Contents of '' @ url @ ascii '':\<newline>''
                    @ take (nat max_length) (drop (nat start_index) content)
                    @ (if start_index + max_length < int (length content)
                       then ascii (''\<newline>\<newline><error>Content truncated. Call the fetch tool ''
                                     @ ''with a start_index of '')
                              @ str_int (start_index + max_length)
                              @ ascii '' to get more content.</error>''
                       else []))
         \<and> int (length (take (nat max_length) (drop (nat start_index) content)))
             = min max_length (int (length content) - start_index)
         \<and> take (nat max_length) (drop (nat start_index) content)
             = py_slice content start_index (start_index + max_length)"
proof -
  have window: "truncated_content content start_index max_length
                  = take (nat max_length) (drop (nat start_index) content)"
    using assms(3,5) by (simp add: truncated_content_window)
  have slice: "take (nat max_length) (drop (nat start_index) content)
                 = py_slice content start_index (start_index + max_length)"
    using window by (simp add: truncated_content_def)
  have len: "int (length (take (nat max_length) (drop (nat start_index) content)))
               = min max_length (int (length content) - start_index)"
    using assms(3,4,5) by (auto simp: min_def)
  have out: "fst (fetch fetch_url url max_length start_index raw s)
           = Inr (prefix @ ascii ''Contents of '' @ url @ ascii '':\<newline>''
                    @ take (nat max_length) (drop (nat start_index) content)
                    @ (if start_index + max_length < int (length content)
                       then ascii (''\<newline>\<newline><error>Content truncated. Call the fetch tool ''
                                     @ ''with a start_index of '')
                              @ str_int (start_index + max_length)
                              @ ascii '' to get more content.</error>''
                       else []))"
    using assms(4)
      fetch_output_cases [of url fetch_url s raw content prefix start_index max_length,
        OF assms(1,2,3,5)]
    by (simp add: window contents_of_def truncation_notice_def)
  from out len slice show ?thesis by simp
qed

theorem fetch_slice_witness:
  "fst (fetch (fetch_url_returning (ascii ''abcdefghij'') []) (ascii ''http://a'') 4 8 False
          startup)
     = Inr (ascii ''Contents of http://a:\<newline>ij'')
   \<and> int (length (ascii ''ij'')) = min 4 (10 - 8)
   \<and> ascii ''ij'' = py_slice (ascii ''abcdefghij'') 8 (8 + 4)
   \<and> fst (fetch (fetch_url_returning (ascii ''abcdefghij'') (ascii ''(simplified) ''))
            (ascii ''http://a'') 3 2 False startup)
       = Inr (ascii (''(simplified) Contents of http://a:\<newline>cde\<newline>\<newline><error>Content ''
                @ ''truncated. Call the fetch tool with a start_index of 5 to get more ''
                @ ''content.</error>''))
   \<and> int (length (ascii ''cde'')) = min 3 (10 - 2)
   \<and> ascii ''cde'' = py_slice (ascii ''abcdefghij'') 2 (2 + 3)"
  using fetch_slice
    [of "ascii ''http://a''" "fetch_url_returning (ascii ''abcdefghij'') []" startup False
        "ascii ''abcdefghij''" "[]" 8 4]
   fetch_slice
    [of "ascii ''http://a''"
        "fetch_url_returning (ascii ''abcdefghij'') (ascii ''(simplified) '')" startup False
        "ascii ''abcdefghij''" "ascii ''(simplified) ''" 2 3]
  by (simp add: ascii_def fetch_url_returning_def str_int_def digits.simps py_slice_def)



text \<open>
  C8. The output of the tool depends on the state only through the configuration and
  through what the fetch step yields: two invocations with the same arguments, under the
  same configuration and with the fetch step yielding the same result, return the same
  output, and each leaves the three globals as they were.
\<close>

theorem fetch_deterministic:
  assumes "configuration t = configuration s"
    and "fst (fetch_url url (USER_AGENT_AUTONOMOUS s) raw (PROXY_URL s) (world t))
           = fst (fetch_url url (USER_AGENT_AUTONOMOUS s) raw (PROXY_URL s) (world s))"
  shows "fst (fetch fetch_url url max_length start_index raw t)
           = fst (fetch fetch_url url max_length start_index raw s)
         \<and> configuration (snd (fetch fetch_url url max_length start_index raw s))
             = configuration s
         \<and> configuration (snd (fetch fetch_url url max_length start_index raw t))
             = configuration s"
proof -
  from assms(1) have "USER_AGENT_AUTONOMOUS t = USER_AGENT_AUTONOMOUS s"
    and "PROXY_URL t = PROXY_URL s"
    by (simp_all add: configuration_def)
  then have "fst (fetch fetch_url url max_length start_index raw t)
               = fst (fetch fetch_url url max_length start_index raw s)"
    using assms(2) by (rule fetch_output_depends)
  then show ?thesis
    using assms(1) by (simp add: fetch_configuration)
qed

theorem fetch_deterministic_witness:
  "fst (fetch (fetch_url_returning (ascii ''abcdefghij'') []) (ascii ''http://a'') 4 0 False
          (snd (fetch (fetch_url_returning (ascii ''abcdefghij'') []) (ascii ''http://a'') 4 0
                  False startup)))
     = fst (fetch (fetch_url_returning (ascii ''abcdefghij'') []) (ascii ''http://a'') 4 0 False
              startup)
   \<and> configuration
         (snd (fetch (fetch_url_returning (ascii ''abcdefghij'') []) (ascii ''http://a'') 4 0
                 False startup))
       = configuration startup
   \<and> configuration
         (snd (fetch (fetch_url_returning (ascii ''abcdefghij'') []) (ascii ''http://a'') 4 0
                 False
                 (snd (fetch (fetch_url_returning (ascii ''abcdefghij'') [])
                         (ascii ''http://a'') 4 0 False startup))))
       = configuration startup"
proof -
  let ?f = "fetch_url_returning (ascii ''abcdefghij'') []"
  let ?t = "snd (fetch ?f (ascii ''http://a'') 4 0 False startup)"
  have config: "configuration ?t = configuration startup"
    by (rule fetch_configuration)
  have step: "fst (?f (ascii ''http://a'') (USER_AGENT_AUTONOMOUS startup) False
                     (PROXY_URL startup) (world ?t))
                = fst (?f (ascii ''http://a'') (USER_AGENT_AUTONOMOUS startup) False
                         (PROXY_URL startup) (world startup))"
    by (simp add: fetch_url_returning_def)
  show ?thesis
    by (rule fetch_deterministic
          [of ?t startup ?f "ascii ''http://a''" False 4 0, OF config step])
qed

text \<open>
  C4, as stated, fails: the tool fetches under the autonomous user agent and makes no
  robots-policy evaluation first.
\<close>

theorem fetch_not_robots_gated:
  "\<not> robots_gated (USER_AGENT_AUTONOMOUS startup) []
       (calls (snd (fetch (fetch_url_returning (ascii ''page'') []) (ascii ''http://a'') 5000 0
                      False startup)))"
  by (simp add: fetch_calls ascii_def startup_def configure_server_def)

text \<open>
  C4, amended. For a non-empty URL the tool makes exactly one call to a collaborator: the
  URL fetcher, with the autonomous user agent and the configured proxy. No robots-policy
  evaluation is made before it.
\<close>

theorem fetch_calls_fetch_url_directly:
  assumes "url \<noteq> []"
  shows "calls (snd (fetch fetch_url url max_length start_index raw s))
           = calls s @ [Fetch_url url (USER_AGENT_AUTONOMOUS s) raw (PROXY_URL s)]"
  using assms by (simp add: fetch_calls)

theorem fetch_calls_fetch_url_directly_witness:
  "calls (snd (fetch (fetch_url_returning (ascii ''page'') []) (ascii ''http://a'') 5000 0 False
                 startup))
     = [Fetch_url (ascii ''http://a'') (Some DEFAULT_USER_AGENT_AUTONOMOUS) False None]"
  using fetch_calls_fetch_url_directly
    [of "ascii ''http://a''" "fetch_url_returning (ascii ''page'') []" 5000 0 False startup]
  by (simp add: ascii_def startup_def configure_server_def py_or_def)

text \<open>
  Within the ranges the tool declares for its arguments (\<open>start_index \<ge> 0\<close> and
  \<open>max_length > 0\<close>) the continuation protocol makes progress: when the output is the
  envelope of the slice followed by the continuation instruction naming \<open>n\<close>, then
  \<open>n = start_index + max_length\<close> and \<open>n < len(content)\<close>, so a follow-up call at \<open>n\<close>
  over the same content returns a non-empty slice in its envelope and not the
  end-of-content error. A caller that follows the instructions makes finitely many calls
  (at most one per remaining character), each slice is non-empty, and the slices
  concatenated are the content from \<open>start_index\<close> on.
\<close>

lemma continuation_progress:
  assumes "url \<noteq> []"
    and "fst (fetch_url url (USER_AGENT_AUTONOMOUS s) raw (PROXY_URL s) (world s))
           = Inr (content, prefix)"
    and "0 \<le> start_index" and "0 < max_length"
  shows "(\<forall>n. fst (fetch fetch_url url max_length start_index raw s)
               = Inr (contents_of prefix url
                        (truncated_content content start_index max_length
                           @ truncation_notice n))
            \<longrightarrow> n = start_index + max_length \<and> n < int (length content)
                \<and> truncated_content content n max_length \<noteq> []
                \<and> (\<forall>t prefix'.
                      fst (fetch_url url (USER_AGENT_AUTONOMOUS t) raw (PROXY_URL t) (world t))
                        = Inr (content, prefix')
                      \<longrightarrow> fst (fetch fetch_url url max_length n raw t) \<noteq> Inr no_more_content
                          \<and> (\<exists>tail. fst (fetch fetch_url url max_length n raw t)
                                = Inr (contents_of prefix' url
                                         (truncated_content content n max_length @ tail)))))
         \<and> concat (continuation_calls content max_length start_index)
             = drop (nat start_index) content
         \<and> [] \<notin> set (continuation_calls content max_length start_index)
         \<and> length (continuation_calls content max_length start_index)
             \<le> length content - nat start_index"
proof -
  let ?out = "fst (fetch fetch_url url max_length start_index raw s)"
  let ?slice = "truncated_content content start_index max_length"
  have named: "n = start_index + max_length \<and> n < int (length content)"
    if "?out = Inr (contents_of prefix url (?slice @ truncation_notice n))" for n
  proof -
    have "truncation_notice (start_index + max_length) = truncation_notice n
            \<and> start_index + max_length < int (length content)"
      using that
        fetch_output_cases [of url fetch_url s raw content prefix start_index max_length,
          OF assms]
      by (simp split: if_splits)
    then show ?thesis
      using truncation_notice_inject [of "start_index + max_length" n] by simp
  qed
  have follow: "fst (fetch fetch_url url max_length n raw t) \<noteq> Inr no_more_content
                  \<and> (\<exists>tail. fst (fetch fetch_url url max_length n raw t)
                        = Inr (contents_of prefix' url
                                 (truncated_content content n max_length @ tail)))"
    if "n = start_index + max_length" and "n < int (length content)"
      and "fst (fetch_url url (USER_AGENT_AUTONOMOUS t) raw (PROXY_URL t) (world t))
             = Inr (content, prefix')"
    for n t prefix'
  proof -
    have "0 \<le> n" using that(1) assms(3,4) by simp
    from fetch_output_cases [of url fetch_url t raw content prefix' n max_length,
           OF assms(1) that(3) this assms(4)] that(2)
    show ?thesis by (auto split: if_splits)
  qed
  have nonempty: "truncated_content content n max_length \<noteq> []"
    if "n = start_index + max_length" and "n < int (length content)" for n
    using that assms(3,4) by (simp add: truncated_content_nonempty)
  from named follow nonempty continuation_calls_cover [OF assms(3,4), of content]
  show ?thesis by blast
qed

text \<open>
  C9. The tool itself takes any integer for \<open>start_index\<close>: the ranges are declared in
  \<open>FetchArgs\<close>, which is attached to nothing. On the ten characters \<open>abcdefghij\<close>, the call
  with \<open>start_index = -3\<close> and \<open>max_length = 2\<close> returns the slice \<open>hi\<close> and a continuation
  instruction naming \<open>-1\<close>; the follow-up call at \<open>-1\<close> returns the end-of-content error,
  not a slice.
\<close>

theorem fetch_continuation_dead_end:
  "fst (fetch (fetch_url_returning (ascii ''abcdefghij'') []) (ascii ''http://a'') 2 (- 3) False
          startup)
     = Inr (ascii (''Contents of http://a:\<newline>hi\<newline>\<newline><error>Content truncated. Call the ''
              @ ''fetch tool with a start_index of -1 to get more content.</error>''))
   \<and> fst (fetch (fetch_url_returning (ascii ''abcdefghij'') []) (ascii ''http://a'') 2 (- 1) False
            startup)
       = Inr (ascii ''<error>No more content available.</error>'')"
  by (simp add: fetch_def call_fetch_url_def fetch_url_returning_def ascii_def
        original_length_def truncated_content_def actual_content_length_def
        remaining_content_def next_start_def py_slice_def contents_of_def
        truncation_notice_def no_more_content_def str_int_def digits.simps)

text \<open>The caller that follows the instructions from \<open>-3\<close> receives that one slice.\<close>

lemma continuation_calls_dead_end:
  "continuation_calls (ascii ''abcdefghij'') 2 (- 3) = [ascii ''hi'']"
  by (simp add: ascii_def original_length_def truncated_content_def
        actual_content_length_def remaining_content_def next_start_def py_slice_def
        continuation_calls.simps)

section \<open>Properties of the bearer-token middleware\<close>

text \<open>
  Where the Authorization value decodes, the middleware behaves as its interface says: a
  value other than \<open>Bearer <token>\<close>, or no header at all, gets the two messages of the
  401 response and the wrapped application is not invoked; the exact value hands the
  request to the application; without a token \<open>get_app\<close> installs no check.
\<close>

lemma utf8_run_ascii:
  "\<forall>b \<in> set bs. b < 128 \<Longrightarrow> utf8_run 0 0 128 192 bs = Some bs"
  by (induction bs) simp_all

lemma decode_utf8_ascii:
  "\<forall>c \<in> set b. (of_char c :: nat) < 128 \<Longrightarrow> decode_utf8 b = Some (ascii b)"
  by (simp add: decode_utf8_def ascii_def utf8_run_ascii)

lemma auth_middleware_cases:
  "auth_middleware app token scope c =
     (if scope_type scope = ascii ''http'' then
        (case decode_utf8 (authorization scope) of
           None \<Rightarrow> (Some UnicodeDecodeError, c)
         | Some auth_header \<Rightarrow>
             if auth_header \<noteq> ascii ''Bearer '' @ token
             then (None, c\<lparr>sent := sent c @ [unauthorized_start, unauthorized_body]\<rparr>)
             else app scope c)
      else app scope c)"
  by (simp add: auth_middleware_def authorization_def send_def Let_def split: option.splits)

lemma auth_middleware_unauthorized:
  assumes "scope_type scope = ascii ''http''"
    and "decode_utf8 (authorization scope) = Some auth_header"
    and "auth_header \<noteq> ascii ''Bearer '' @ token"
  shows "auth_middleware app token scope c
           = (None, c\<lparr>sent := sent c @ [unauthorized_start, unauthorized_body]\<rparr>)"
  using assms by (simp add: auth_middleware_cases)

lemma auth_middleware_authorized:
  assumes "decode_utf8 (authorization scope) = Some (ascii ''Bearer '' @ token)"
  shows "auth_middleware app token scope c = app scope c"
  using assms by (simp add: auth_middleware_cases)

lemma auth_middleware_missing_header:
  assumes "scope_type scope = ascii ''http''"
    and "headers scope = Some hs" and "''authorization'' \<notin> fst ` set hs"
  shows "auth_middleware app token scope c
           = (None, c\<lparr>sent := sent c @ [unauthorized_start, unauthorized_body]\<rparr>)"
proof -
  have "map_of (rev hs) ''authorization'' = None"
    using assms(3) by (simp add: map_of_eq_None_iff)
  then have "authorization scope = []"
    using assms(2) by (simp add: authorization_def)
  then have "decode_utf8 (authorization scope) = Some []"
    by (simp add: decode_utf8_def)
  then show ?thesis
    using assms(1) by (simp add: auth_middleware_cases ascii_def)
qed

lemma get_app_without_token:
  "get_app streamable_http_app None = invoke streamable_http_app"
  "get_app streamable_http_app (Some []) = invoke streamable_http_app"
  by (simp_all add: get_app_def)

lemma get_app_with_token:
  "token \<noteq> [] \<Longrightarrow>
     get_app streamable_http_app (Some token)
       = auth_middleware (invoke streamable_http_app) token"
  by (simp add: get_app_def create_auth_middleware_def)

lemma get_app_exact_header:
  "get_app streamable_http_app (Some (ascii ''secret''))
     \<lparr>scope_type = ascii ''http'', headers = Some [(''authorization'', ''Bearer secret'')]\<rparr> c
   = invoke streamable_http_app
       \<lparr>scope_type = ascii ''http'', headers = Some [(''authorization'', ''Bearer secret'')]\<rparr> c"
  by (simp add: get_app_def create_auth_middleware_def auth_middleware_def decode_utf8_def
        ascii_def)

lemma get_app_no_header:
  "get_app streamable_http_app (Some (ascii ''secret''))
     \<lparr>scope_type = ascii ''http'', headers = Some []\<rparr> c
   = (None, c\<lparr>sent := sent c @ [unauthorized_start, unauthorized_body]\<rparr>)"
  by (simp add: get_app_def create_auth_middleware_def auth_middleware_def decode_utf8_def
        ascii_def send_def)

text \<open>
  C6. With the token \<open>secret\<close> configured, an HTTP request whose Authorization header is
  the single byte \<open>FF\<close> (not valid UTF-8, and not \<open>Bearer secret\<close>) makes the middleware
  raise \<open>UnicodeDecodeError\<close> from \<open>.decode("utf-8")\<close>: the connection is left as it was,
  so no 401 response is sent (and the wrapped application is not invoked).
\<close>

theorem get_app_undecodable_authorization:
  "get_app streamable_http_app (Some (ascii ''secret''))
     \<lparr>scope_type = ascii ''http'', headers = Some [(''authorization'', [CHR 0xFF])]\<rparr> c
   = (Some UnicodeDecodeError, c)"
  by (simp add: get_app_def create_auth_middleware_def auth_middleware_def decode_utf8_def
        ascii_def)

end
